theory Spec2Isabelle
  imports Main
begin

section \<open>Python values, exceptions and the remote service\<close>

text \<open>
  The values the tabular service returns in a record's fields: JSON null, booleans,
  numbers, text and lists. \<open>VInt\<close> is a number by its value: Python's \<open>1\<close> and \<open>1.0\<close>
  are equal and are one value here, so the conversion of an integer column to floats
  by the data-frame library leaves its cells as they are; numbers with a fraction are
  not modelled. \<open>VNaN\<close> is the float the data-frame library puts where a cell is
  missing. A Python \<open>str\<close> is modelled by the \<open>string\<close> of its UTF-8 bytes: equality,
  concatenation and substring containment agree on both.
\<close>

datatype pyval = VNone | VNaN | VBool bool | VInt int | VStr string | VList "pyval list"

datatype exn =
    KeyError string
  | TypeError
  | RemoteError string
  | SchemaError nat string

text \<open>A dictionary, as the list of its items; a key is looked up with \<open>map_of\<close>.\<close>

type_synonym pydict = "(string \<times> pyval) list"

text \<open>Python truthiness, as \<open>if name\<close> and \<open>not fields.get(...)\<close> read it.\<close>

fun truthy :: "pyval \<Rightarrow> bool" where
  "truthy VNone = False"
| "truthy VNaN = True"
| "truthy (VBool b) = b"
| "truthy (VInt n) = (n \<noteq> 0)"
| "truthy (VStr s) = (s \<noteq> [])"
| "truthy (VList xs) = (xs \<noteq> [])"

text \<open>Python \<open>==\<close> on two values: NaN equals nothing, \<open>True == 1\<close>, lists compare by elements.\<close>

fun py_eq :: "pyval \<Rightarrow> pyval \<Rightarrow> bool" and py_eq_list :: "pyval list \<Rightarrow> pyval list \<Rightarrow> bool" where
  "py_eq VNone VNone = True"
| "py_eq (VBool a) (VBool b) = (a = b)"
| "py_eq (VBool a) (VInt b) = ((if a then 1 else 0) = b)"
| "py_eq (VInt a) (VBool b) = (a = (if b then 1 else 0))"
| "py_eq (VInt a) (VInt b) = (a = b)"
| "py_eq (VStr a) (VStr b) = (a = b)"
| "py_eq (VList a) (VList b) = py_eq_list a b"
| "py_eq a b = False"
| "py_eq_list [] [] = True"
| "py_eq_list (x # xs) (y # ys) = (py_eq x y \<and> py_eq_list xs ys)"
| "py_eq_list xs ys = False"

text \<open>\<open>d.get(k)\<close>: the value, or None when the key is absent.\<close>

definition dict_get :: "pydict \<Rightarrow> string \<Rightarrow> pyval" where
  "dict_get d k = (case map_of d k of None \<Rightarrow> VNone | Some v \<Rightarrow> v)"

text \<open>\<open>d[k]\<close>: raises KeyError when the key is absent.\<close>

definition dict_item :: "pydict \<Rightarrow> string \<Rightarrow> exn + pyval" where
  "dict_item d k = (case map_of d k of None \<Rightarrow> Inl (KeyError k) | Some v \<Rightarrow> Inr v)"

text \<open>\<open>a in b\<close> on two strings: \<open>a\<close> occurs in \<open>b\<close> as a contiguous run.\<close>

fun starts_with :: "string \<Rightarrow> string \<Rightarrow> bool" where
  "starts_with [] t = True"
| "starts_with (c # s) [] = False"
| "starts_with (c # s) (d # t) = (c = d \<and> starts_with s t)"

fun str_contains :: "string \<Rightarrow> string \<Rightarrow> bool" where
  "str_contains s [] = (s = [])"
| "str_contains s (d # t) = (starts_with s (d # t) \<or> str_contains s t)"

text \<open>
  \<open>client_id in client_ids\<close> with a string on the left: substring containment in a
  string, membership in a list, TypeError on a value that is not iterable (None, a
  number, a boolean).
\<close>

fun py_in :: "string \<Rightarrow> pyval \<Rightarrow> exn + bool" where
  "py_in s (VStr t) = Inr (str_contains s t)"
| "py_in s (VList xs) = Inr (VStr s \<in> set xs)"
| "py_in s v = Inl TypeError"

text \<open>
  \<open>unicodedata.normalize('NFKC', v) if v else None\<close>. The normalisation itself is the
  standard library's and is a parameter \<open>nfkc\<close> of the model; a truthy value that is
  not a string makes it raise TypeError.
\<close>

definition normalize_or_none :: "(string \<Rightarrow> string) \<Rightarrow> pyval \<Rightarrow> exn + pyval" where
  "normalize_or_none nfkc v =
     (if truthy v then (case v of VStr s \<Rightarrow> Inr (VStr (nfkc s)) | _ \<Rightarrow> Inl TypeError)
      else Inr VNone)"

text \<open>
  A record of a table as the service sends it: its identifier and its fields. Both
  entries are always present, so \<open>record['id']\<close> and \<open>record['fields']\<close> do not raise.
\<close>

record at_record =
  rec_id :: string
  rec_fields :: pydict

record table_schema =
  ts_id :: string
  ts_fields :: "string list"

text \<open>
  An HTTP response: the status, the body as text and, for the schema call, the
  \<open>tables\<close> entry of the body read as JSON (None when the body has none).
\<close>

record http_response =
  status_code :: nat
  text_body :: string
  json_tables :: "table_schema list option"

text \<open>
  The external service as the code sees it. Each call either raises (\<open>Inl\<close>) or
  returns a body. \<open>at_get\<close> returns the \<open>records\<close> entry of the first page (None when
  the body has no such entry, as the body of a non-success response);
  \<open>at_iterate\<close> is the generator over all pages: the records it yields and the
  exception that ends it, if any; \<open>at_update\<close> returns the \<open>fields\<close> entry of the
  updated record (None when the body has none).
\<close>

record remote =
  at_get :: "string \<Rightarrow> string list \<Rightarrow> exn + at_record list option"
  at_iterate :: "string \<Rightarrow> at_record list \<times> exn option"
  at_update :: "string \<Rightarrow> string \<Rightarrow> (string \<times> pyval) list \<Rightarrow> exn + pydict option"
  requests_get :: "string \<Rightarrow> exn + http_response"
  requests_post :: "string \<Rightarrow> (string \<times> string) list \<Rightarrow> exn + http_response"

text \<open>What a call leaves behind: the remote calls it made and the lines it printed.\<close>

datatype log_line =
    UpdateDone pyval
  | RecordNotFound string string
  | ErrorCheckUpdate exn
  | ErrorGetRecordId exn
  | Commented
  | ErrorCreatingComment string nat string

datatype event =
    AtGet string "string list"
  | AtUpdate string string "(string \<times> pyval) list"
  | HttpPost string "(string \<times> string) list"
  | Print log_line

fun is_field_write :: "event \<Rightarrow> bool" where
  "is_field_write (AtUpdate t r d) = True"
| "is_field_write e = False"

fun is_comment_post :: "event \<Rightarrow> bool" where
  "is_comment_post (HttpPost u d) = True"
| "is_comment_post e = False"

section \<open>Record Matcher: \<open>get_record_id\<close>\<close>

text \<open>
  The test of one record: \<open>name == client_full_name and client_id in client_ids\<close>,
  with the name normalised first. The containment test runs only when the names are
  equal.
\<close>

definition record_matches ::
  "(string \<Rightarrow> string) \<Rightarrow> string \<Rightarrow> string \<Rightarrow> string \<times> string \<Rightarrow> at_record \<Rightarrow> exn + bool" where
  "record_matches nfkc id_column name_column query r =
     (case normalize_or_none nfkc (dict_get (rec_fields r) name_column) of
        Inl e \<Rightarrow> Inl e
      | Inr name \<Rightarrow>
          if name = VStr (fst query)
          then py_in (snd query) (dict_get (rec_fields r) id_column)
          else Inr False)"

text \<open>The loop over the records; falling off its end returns None.\<close>

fun scan_record_id ::
  "(string \<Rightarrow> string) \<Rightarrow> string \<Rightarrow> string \<Rightarrow> string \<times> string \<Rightarrow> at_record list
     \<Rightarrow> exn + string option" where
  "scan_record_id nfkc id_column name_column query [] = Inr None"
| "scan_record_id nfkc id_column name_column query (r # rs) =
     (case record_matches nfkc id_column name_column query r of
        Inl e \<Rightarrow> Inl e
      | Inr True \<Rightarrow> Inr (Some (rec_id r))
      | Inr False \<Rightarrow> scan_record_id nfkc id_column name_column query rs)"

text \<open>The body of the \<open>try\<close>: the remote read, then the loop.\<close>

definition get_record_id_body ::
  "(string \<Rightarrow> string) \<Rightarrow> remote \<Rightarrow> string \<Rightarrow> string \<Rightarrow> string \<Rightarrow> string \<times> string
     \<Rightarrow> exn + string option" where
  "get_record_id_body nfkc R table_id id_column name_column query =
     (case at_get R table_id [name_column, id_column] of
        Inl e \<Rightarrow> Inl e
      | Inr None \<Rightarrow> Inl (KeyError ''records'')
      | Inr (Some records) \<Rightarrow> scan_record_id nfkc id_column name_column query records)"

text \<open>\<open>except Exception\<close>: print and return None.\<close>

definition get_record_id ::
  "(string \<Rightarrow> string) \<Rightarrow> remote \<Rightarrow> string \<Rightarrow> string \<Rightarrow> string \<Rightarrow> string \<times> string
     \<Rightarrow> string option \<times> event list" where
  "get_record_id nfkc R table_id id_column name_column query =
     (case get_record_id_body nfkc R table_id id_column name_column query of
        Inl e \<Rightarrow> (None, [AtGet table_id [name_column, id_column], Print (ErrorGetRecordId e)])
      | Inr res \<Rightarrow> (res, [AtGet table_id [name_column, id_column]]))"

section \<open>Verify-and-Update: \<open>verify_and_update\<close>\<close>

text \<open>The test of one record: both name and id normalised, both compared for equality.\<close>

definition update_matches ::
  "(string \<Rightarrow> string) \<Rightarrow> string \<Rightarrow> string \<Rightarrow> string \<times> string \<Rightarrow> at_record \<Rightarrow> exn + bool" where
  "update_matches nfkc name_column id_column query r =
     (case normalize_or_none nfkc (dict_get (rec_fields r) name_column) of
        Inl e \<Rightarrow> Inl e
      | Inr name \<Rightarrow>
          (case normalize_or_none nfkc (dict_get (rec_fields r) id_column) of
             Inl e \<Rightarrow> Inl e
           | Inr ident \<Rightarrow> Inr (name = VStr (fst query) \<and> ident = VStr (snd query))))"

text \<open>\<open>fields.get(update_column, False)\<close> read as a condition.\<close>

definition update_flag :: "at_record \<Rightarrow> string \<Rightarrow> bool" where
  "update_flag r update_column =
     (case map_of (rec_fields r) update_column of None \<Rightarrow> False | Some v \<Rightarrow> truthy v)"

text \<open>
  What happens at a matching record: when the flag is not set, the field write, then
  the log line that reads the name column of the reply; then True.
\<close>

definition update_record ::
  "remote \<Rightarrow> string \<Rightarrow> string \<Rightarrow> string \<Rightarrow> at_record \<Rightarrow> (exn + bool) \<times> event list" where
  "update_record R table_id name_column update_column r =
     (if \<not> update_flag r update_column then
        (case at_update R table_id (rec_id r) [(update_column, VBool True)] of
           Inl e \<Rightarrow> (Inl e, [AtUpdate table_id (rec_id r) [(update_column, VBool True)]])
         | Inr None \<Rightarrow>
             (Inl (KeyError ''fields''),
              [AtUpdate table_id (rec_id r) [(update_column, VBool True)]])
         | Inr (Some fs) \<Rightarrow>
             (case dict_item fs name_column of
                Inl e \<Rightarrow> (Inl e, [AtUpdate table_id (rec_id r) [(update_column, VBool True)]])
              | Inr v \<Rightarrow>
                  (Inr True,
                   [AtUpdate table_id (rec_id r) [(update_column, VBool True)],
                    Print (UpdateDone v)])))
      else (Inr True, []))"

fun scan_update ::
  "(string \<Rightarrow> string) \<Rightarrow> remote \<Rightarrow> string \<Rightarrow> string \<Rightarrow> string \<Rightarrow> string \<Rightarrow> string \<times> string
     \<Rightarrow> at_record list \<Rightarrow> (exn + bool) \<times> event list" where
  "scan_update nfkc R table_id name_column id_column update_column query [] =
     (Inr False, [Print (RecordNotFound (fst query) (snd query))])"
| "scan_update nfkc R table_id name_column id_column update_column query (r # rs) =
     (case update_matches nfkc name_column id_column query r of
        Inl e \<Rightarrow> (Inl e, [])
      | Inr True \<Rightarrow> update_record R table_id name_column update_column r
      | Inr False \<Rightarrow> scan_update nfkc R table_id name_column id_column update_column query rs)"

definition verify_and_update_body ::
  "(string \<Rightarrow> string) \<Rightarrow> remote \<Rightarrow> string \<Rightarrow> string \<Rightarrow> string \<Rightarrow> string \<Rightarrow> string \<times> string
     \<Rightarrow> (exn + bool) \<times> event list" where
  "verify_and_update_body nfkc R table_id name_column id_column update_column query =
     (case at_get R table_id [name_column, id_column, update_column] of
        Inl e \<Rightarrow> (Inl e, [])
      | Inr None \<Rightarrow> (Inl (KeyError ''records''), [])
      | Inr (Some records) \<Rightarrow>
          scan_update nfkc R table_id name_column id_column update_column query records)"

text \<open>\<open>except Exception\<close>: print and return False.\<close>

definition verify_and_update ::
  "(string \<Rightarrow> string) \<Rightarrow> remote \<Rightarrow> string \<Rightarrow> string \<Rightarrow> string \<Rightarrow> string \<Rightarrow> string \<times> string
     \<Rightarrow> bool \<times> event list" where
  "verify_and_update nfkc R table_id name_column id_column update_column query =
     (case verify_and_update_body nfkc R table_id name_column id_column update_column query of
        (Inl e, tr) \<Rightarrow>
          (False,
           AtGet table_id [name_column, id_column, update_column] # tr @ [Print (ErrorCheckUpdate e)])
      | (Inr b, tr) \<Rightarrow> (b, AtGet table_id [name_column, id_column, update_column] # tr))"

section \<open>Comments: \<open>create_comment\<close>\<close>

definition comments_url :: "string \<Rightarrow> string \<Rightarrow> string \<Rightarrow> string" where
  "comments_url base_id table_id record_id =
     ''https://api.airtable.com/v0/'' @ base_id @ ''/'' @ table_id @ ''/'' @ record_id @ ''/comments''"

text \<open>
  One POST and a test of its status. The function has no handler: an exception of
  the POST itself leaves the function.
\<close>

definition create_comment ::
  "remote \<Rightarrow> string \<Rightarrow> string \<Rightarrow> string \<Rightarrow> string \<Rightarrow> (exn + bool) \<times> event list" where
  "create_comment R base_id table_id record_id comment =
     (case requests_post R (comments_url base_id table_id record_id) [(''text'', comment)] of
        Inl e \<Rightarrow>
          (Inl e, [HttpPost (comments_url base_id table_id record_id) [(''text'', comment)]])
      | Inr response \<Rightarrow>
          if status_code response = 200
          then (Inr True,
                [HttpPost (comments_url base_id table_id record_id) [(''text'', comment)],
                 Print Commented])
          else (Inr False,
                [HttpPost (comments_url base_id table_id record_id) [(''text'', comment)],
                 Print (ErrorCreatingComment record_id (status_code response) (text_body response))]))"

section \<open>API key check: \<open>get_api_key\<close> and \<open>protected_route\<close>\<close>

datatype http_exception = HTTPException nat string

text \<open>The argument is what the header dependency hands over: None when there is no key.\<close>

definition get_api_key :: "string option \<Rightarrow> http_exception + string" where
  "get_api_key api_key_header =
     (case api_key_header of
        None \<Rightarrow> Inl (HTTPException 400 ''X-API-Key header invalid'')
      | Some k \<Rightarrow>
          if k \<noteq> ''valid_api_key''
          then Inl (HTTPException 403 ''Could not validate credentials'')
          else Inr k)"

definition protected_route :: "string \<Rightarrow> (string \<times> string) list" where
  "protected_route user_id = [(''message'', ''Access granted for user '' @ user_id)]"

text \<open>
  The request as the framework serves it: the dependency runs first; an HTTPException
  becomes a response with its status and detail, a returned body a 200 response.
\<close>

definition serve_protected :: "string option \<Rightarrow> nat \<times> (string \<times> string) list" where
  "serve_protected api_key_header =
     (case get_api_key api_key_header of
        Inl (HTTPException code detail) \<Rightarrow> (code, [(''detail'', detail)])
      | Inr user_id \<Rightarrow> (200, protected_route user_id))"

section \<open>Remote Table Client: \<open>get_base_schema\<close> and \<open>get_table\<close>\<close>

definition schema_url :: "string \<Rightarrow> string" where
  "schema_url base_id = ''https://api.airtable.com/v0/meta/bases/'' @ base_id @ ''/tables''"

text \<open>The metadata call: the body of a 200 response, an exception otherwise.\<close>

definition get_base_schema :: "remote \<Rightarrow> string \<Rightarrow> exn + table_schema list option" where
  "get_base_schema R base_id =
     (case requests_get R (schema_url base_id) of
        Inl e \<Rightarrow> Inl e
      | Inr response \<Rightarrow>
          if status_code response = 200 then Inr (json_tables response)
          else Inl (SchemaError (status_code response) (text_body response)))"

text \<open>
  \<open>==\<close> on the fields of two records. The client decodes a body into ordered
  dictionaries, whose equality wants the same keys in the same order and values that
  are equal under \<open>==\<close>.
\<close>

fun dict_eq :: "pydict \<Rightarrow> pydict \<Rightarrow> bool" where
  "dict_eq [] [] = True"
| "dict_eq ((k, v) # a) ((k', v') # b) = (k = k' \<and> py_eq v v' \<and> dict_eq a b)"
| "dict_eq a b = False"

text \<open>
  \<open>==\<close> on two records: the same identifier and equal fields. The creation time a
  record also carries is fixed with its identifier.
\<close>

definition same_record :: "at_record \<Rightarrow> at_record \<Rightarrow> bool" where
  "same_record r r' = (rec_id r = rec_id r' \<and> dict_eq (rec_fields r) (rec_fields r'))"

text \<open>
  A value of a JSON document holds no NaN, so it is equal to itself under \<open>==\<close>; a
  record of the service holds such values only.
\<close>

fun json_value :: "pyval \<Rightarrow> bool" and json_values :: "pyval list \<Rightarrow> bool" where
  "json_value VNaN = False"
| "json_value (VList xs) = json_values xs"
| "json_value v = True"
| "json_values [] = True"
| "json_values (x # xs) = (json_value x \<and> json_values xs)"

definition json_record :: "at_record \<Rightarrow> bool" where
  "json_record r = json_values (map snd (rec_fields r))"

text \<open>
  The pagination loop: a record the generator yields is appended unless an equal
  record is already in the list (\<open>r not in data['records']\<close> compares whole records).
\<close>

fun append_new :: "at_record list \<Rightarrow> at_record list \<Rightarrow> at_record list" where
  "append_new acc [] = acc"
| "append_new acc (r # rs) =
     append_new (if list_ex (same_record r) acc then acc else acc @ [r]) rs"

text \<open>The columns of the first table of the schema with this id; none when there is no such table.\<close>

fun schema_columns :: "table_schema list \<Rightarrow> string \<Rightarrow> string list" where
  "schema_columns [] table_id = []"
| "schema_columns (tb # tbs) table_id =
     (if ts_id tb = table_id then ts_fields tb else schema_columns tbs table_id)"

text \<open>A data frame: its column labels and its rows, each row aligned to the columns.\<close>

record dataframe =
  df_columns :: "string list"
  df_rows :: "pyval list list"

text \<open>
  \<open>pd.DataFrame(data=[fields, ...]).reindex(columns=all_columns)\<close>: one row per
  dictionary, one cell per declared column, NaN where the dictionary has no such key.
  A column of integers with a missing cell becomes a column of floats of the same
  values, which \<open>VInt\<close> stands for as well.
\<close>

definition frame_of_fields :: "string list \<Rightarrow> pydict list \<Rightarrow> dataframe" where
  "frame_of_fields all_columns dicts =
     \<lparr>df_columns = all_columns,
      df_rows = map (\<lambda>d. map (\<lambda>c. case map_of d c of None \<Rightarrow> VNaN | Some v \<Rightarrow> v) all_columns) dicts\<rparr>"

text \<open>
  The records as \<open>get_table\<close> holds them after the pagination loop. The loop reads
  \<open>data['records']\<close> at the first record the generator yields.
\<close>

definition collected_records :: "remote \<Rightarrow> string \<Rightarrow> exn + at_record list option" where
  "collected_records R table_id =
     (case at_get R table_id [] of
        Inl e \<Rightarrow> Inl e
      | Inr data_records \<Rightarrow>
          (case at_iterate R table_id of
             (yielded, ending) \<Rightarrow>
               (case data_records of
                  None \<Rightarrow>
                    (if yielded \<noteq> [] then Inl (KeyError ''records'')
                     else (case ending of Some e \<Rightarrow> Inl e | None \<Rightarrow> Inr None))
                | Some first_page \<Rightarrow>
                    (case ending of
                       Some e \<Rightarrow> Inl e
                     | None \<Rightarrow> Inr (Some (append_new first_page yielded))))))"

definition get_table :: "remote \<Rightarrow> string \<Rightarrow> string \<Rightarrow> exn + dataframe" where
  "get_table R base_id table_id =
     (case collected_records R table_id of
        Inl e \<Rightarrow> Inl e
      | Inr data_records \<Rightarrow>
          (case get_base_schema R base_id of
             Inl e \<Rightarrow> Inl e
           | Inr None \<Rightarrow> Inl (KeyError ''tables'')
           | Inr (Some tables) \<Rightarrow>
               (case data_records of
                  None \<Rightarrow> Inl (KeyError ''records'')
                | Some records \<Rightarrow>
                    Inr (frame_of_fields (schema_columns tables table_id) (map rec_fields records)))))"

text \<open>
  Duplicate suppression as the specification words it, by record identifier. The code
  does not call it: it is what the loop of \<open>get_table\<close> is compared with.
\<close>

fun append_new_by_id :: "at_record list \<Rightarrow> at_record list \<Rightarrow> at_record list" where
  "append_new_by_id acc [] = acc"
| "append_new_by_id acc (r # rs) =
     append_new_by_id (if rec_id r \<in> set (map rec_id acc) then acc else acc @ [r]) rs"

section \<open>Client Reconciler: \<open>get_client_database\<close>\<close>

text \<open>
  The data-frame library is not part of the repository. The operations below follow it
  on the frames the reconciler builds from text columns: a cell holds a string, a
  list or a missing value, arithmetic on such a column skips missing cells, and a join
  matches missing keys with each other.
\<close>

text \<open>The cell of a row under a column label.\<close>

definition cell :: "string list \<Rightarrow> pyval list \<Rightarrow> string \<Rightarrow> exn + pyval" where
  "cell cols row c = (case map_of (zip cols row) c of None \<Rightarrow> Inl (KeyError c) | Some v \<Rightarrow> Inr v)"

text \<open>\<open>df[c]\<close>: the column, KeyError when the frame has no such label.\<close>

definition column :: "dataframe \<Rightarrow> string \<Rightarrow> exn + pyval list" where
  "column df c =
     (if c \<in> set (df_columns df)
      then Inr (map (\<lambda>row. case map_of (zip (df_columns df) row) c of None \<Rightarrow> VNaN | Some v \<Rightarrow> v)
                  (df_rows df))
      else Inl (KeyError c))"

text \<open>\<open>df[c] = values\<close>: overwrites the column in place, or appends it as the last one.\<close>

definition set_column :: "dataframe \<Rightarrow> string \<Rightarrow> pyval list \<Rightarrow> dataframe" where
  "set_column df c vals =
     (if c \<in> set (df_columns df)
      then \<lparr>df_columns = df_columns df,
            df_rows = map (\<lambda>(row, v). map (\<lambda>(k, old). if k = c then v else old) (zip (df_columns df) row))
                        (zip (df_rows df) vals)\<rparr>
      else \<lparr>df_columns = df_columns df @ [c],
            df_rows = map (\<lambda>(row, v). row @ [v]) (zip (df_rows df) vals)\<rparr>)"

text \<open>\<open>x[0] if isinstance(x, list) and len(x) == 1 else x\<close>.\<close>

fun unwrap_single :: "pyval \<Rightarrow> pyval" where
  "unwrap_single (VList [x]) = x"
| "unwrap_single v = v"

definition unwrap_column :: "dataframe \<Rightarrow> string \<Rightarrow> exn + dataframe" where
  "unwrap_column df c =
     (case column df c of
        Inl e \<Rightarrow> Inl e
      | Inr vals \<Rightarrow> Inr (set_column df c (map unwrap_single vals)))"

definition is_null :: "pyval \<Rightarrow> bool" where
  "is_null v = (v = VNone \<or> v = VNaN)"

text \<open>
  \<open>a + b\<close> on two cells of text columns: concatenation of two strings, NaN when a
  cell is missing, TypeError on any other pair.
\<close>

fun add_cells :: "pyval \<Rightarrow> pyval \<Rightarrow> exn + pyval" where
  "add_cells (VStr a) (VStr b) = Inr (VStr (a @ b))"
| "add_cells a b = (if is_null a \<or> is_null b then Inr VNaN else Inl TypeError)"

fun add_columns :: "pyval list \<Rightarrow> pyval list \<Rightarrow> exn + pyval list" where
  "add_columns (a # as) (b # bs) =
     (case add_cells a b of
        Inl e \<Rightarrow> Inl e
      | Inr v \<Rightarrow> (case add_columns as bs of Inl e \<Rightarrow> Inl e | Inr vs \<Rightarrow> Inr (v # vs)))"
| "add_columns as bs = Inr []"

text \<open>
  \<open>column + ' | '\<close>. A column that holds nothing but NaN is a column of floats, and so
  is the column of a frame without rows: adding text to it raises. On any other
  column the text is added cell by cell.
\<close>

definition add_text :: "pyval list \<Rightarrow> string \<Rightarrow> exn + pyval list" where
  "add_text vals s =
     (if list_all (\<lambda>v. v = VNaN) vals then Inl TypeError
      else add_columns vals (map (\<lambda>x. VStr s) vals))"

text \<open>\<open>df['index'] = df[id_column] + ' | ' + df[name_column]\<close>.\<close>

definition add_index :: "dataframe \<Rightarrow> string \<Rightarrow> string \<Rightarrow> exn + dataframe" where
  "add_index df id_column name_column =
     (case column df id_column of
        Inl e \<Rightarrow> Inl e
      | Inr ids \<Rightarrow>
          (case add_text ids '' | '' of
             Inl e \<Rightarrow> Inl e
           | Inr prefixes \<Rightarrow>
               (case column df name_column of
                  Inl e \<Rightarrow> Inl e
                | Inr names \<Rightarrow>
                    (case add_columns prefixes names of
                       Inl e \<Rightarrow> Inl e
                     | Inr keys \<Rightarrow> Inr (set_column df ''index'' keys)))))"

text \<open>Join keys: missing keys match each other, other keys match when equal.\<close>

definition key_match :: "pyval \<Rightarrow> pyval \<Rightarrow> bool" where
  "key_match a b = (if is_null a \<or> is_null b then is_null a \<and> is_null b else a = b)"

definition key_of :: "string list \<Rightarrow> pyval list \<Rightarrow> pyval" where
  "key_of cols row = (case map_of (zip cols row) ''index'' of None \<Rightarrow> VNaN | Some v \<Rightarrow> v)"

text \<open>The cells of a row of the right frame without its key column.\<close>

definition without_key :: "string list \<Rightarrow> pyval list \<Rightarrow> pyval list" where
  "without_key cols row = map snd (filter (\<lambda>(k, v). k \<noteq> ''index'') (zip cols row))"

text \<open>
  \<open>pd.merge(left, right, on="index", how='left')\<close>: the left columns, then the right
  columns but the key; a label on both sides gets the suffix \<open>_x\<close> on the left and
  \<open>_y\<close> on the right. Each left row is paired, in order, with every right row of the
  same key, or once with missing cells when there is none.
\<close>

definition merge_left :: "dataframe \<Rightarrow> dataframe \<Rightarrow> dataframe" where
  "merge_left left right =
     \<lparr>df_columns =
        map (\<lambda>c. if c \<noteq> ''index'' \<and> c \<in> set (df_columns right) then c @ ''_x'' else c)
          (df_columns left) @
        map (\<lambda>c. if c \<in> set (df_columns left) then c @ ''_y'' else c)
          (filter (\<lambda>c. c \<noteq> ''index'') (df_columns right)),
      df_rows =
        concat (map (\<lambda>l.
          (case filter (\<lambda>r. key_match (key_of (df_columns left) l) (key_of (df_columns right) r))
                  (df_rows right) of
             [] \<Rightarrow> [l @ map (\<lambda>c. VNaN) (filter (\<lambda>c. c \<noteq> ''index'') (df_columns right))]
           | m # ms \<Rightarrow> map (\<lambda>r. l @ without_key (df_columns right) r) (m # ms)))
          (df_rows left))\<rparr>"

text \<open>
  \<open>row[f'{col}_x'] if row[f'{col}_x'] == row[f'{col}_y'] else None\<close>: the value the
  function returns for one row.
\<close>

definition agreed_cell :: "string list \<Rightarrow> string \<Rightarrow> pyval list \<Rightarrow> exn + pyval" where
  "agreed_cell cols col row =
     (case cell cols row (col @ ''_x'') of
        Inl e \<Rightarrow> Inl e
      | Inr x \<Rightarrow>
          (case cell cols row (col @ ''_y'') of
             Inl e \<Rightarrow> Inl e
           | Inr y \<Rightarrow> Inr (if py_eq x y then x else VNone)))"

fun agreed_cells :: "string list \<Rightarrow> string \<Rightarrow> pyval list list \<Rightarrow> exn + pyval list" where
  "agreed_cells cols col [] = Inr []"
| "agreed_cells cols col (row # rows) =
     (case agreed_cell cols col row of
        Inl e \<Rightarrow> Inl e
      | Inr v \<Rightarrow> (case agreed_cells cols col rows of Inl e \<Rightarrow> Inl e | Inr vs \<Rightarrow> Inr (v # vs)))"

text \<open>
  The column the library builds from the values of the rows: None stays None when
  every value is None, and becomes NaN in a column that holds other values too.
\<close>

definition built_column :: "pyval list \<Rightarrow> pyval list" where
  "built_column vals =
     (if list_all (\<lambda>v. v = VNone) vals then vals
      else map (\<lambda>v. if v = VNone then VNaN else v) vals)"

text \<open>\<open>clients[col] = clients.apply(..., axis=1)\<close>.\<close>

definition keep_agreed :: "dataframe \<Rightarrow> string \<Rightarrow> exn + dataframe" where
  "keep_agreed clients col =
     (case agreed_cells (df_columns clients) col (df_rows clients) of
        Inl e \<Rightarrow> Inl e
      | Inr vals \<Rightarrow> Inr (set_column clients col (built_column vals)))"

text \<open>Drops every column whose label contains \<open>_x\<close> or \<open>_y\<close>.\<close>

definition drop_suffixed :: "dataframe \<Rightarrow> dataframe" where
  "drop_suffixed df =
     \<lparr>df_columns = filter (\<lambda>c. \<not> (str_contains ''_x'' c \<or> str_contains ''_y'' c)) (df_columns df),
      df_rows =
        map (\<lambda>row. map snd (filter (\<lambda>(c, v). \<not> (str_contains ''_x'' c \<or> str_contains ''_y'' c))
                                (zip (df_columns df) row)))
          (df_rows df)\<rparr>"

text \<open>The reconciliation of the two frames once both tables are fetched.\<close>

definition reconcile :: "dataframe \<Rightarrow> dataframe \<Rightarrow> string \<Rightarrow> string \<Rightarrow> exn + dataframe" where
  "reconcile clients_data clients_checking id_column name_column =
     (case unwrap_column clients_checking name_column of
        Inl e \<Rightarrow> Inl e
      | Inr checking1 \<Rightarrow>
     (case unwrap_column checking1 id_column of
        Inl e \<Rightarrow> Inl e
      | Inr checking2 \<Rightarrow>
     (case add_index clients_data id_column name_column of
        Inl e \<Rightarrow> Inl e
      | Inr data_keyed \<Rightarrow>
     (case add_index checking2 id_column name_column of
        Inl e \<Rightarrow> Inl e
      | Inr checking_keyed \<Rightarrow>
     (case keep_agreed (merge_left data_keyed checking_keyed) name_column of
        Inl e \<Rightarrow> Inl e
      | Inr clients1 \<Rightarrow>
     (case keep_agreed clients1 id_column of
        Inl e \<Rightarrow> Inl e
      | Inr clients2 \<Rightarrow> Inr (drop_suffixed clients2)))))))"

text \<open>The \<open>except\<close> clause re-raises, so every exception leaves the function.\<close>

definition get_client_database ::
  "remote \<Rightarrow> string \<Rightarrow> string \<Rightarrow> string \<Rightarrow> string \<Rightarrow> string \<Rightarrow> exn + dataframe" where
  "get_client_database R base_id main_table_id checking_table_id id_column name_column =
     (case get_table R base_id main_table_id of
        Inl e \<Rightarrow> Inl e
      | Inr clients_data \<Rightarrow>
          (case get_table R base_id checking_table_id of
             Inl e \<Rightarrow> Inl e
           | Inr clients_checking \<Rightarrow> reconcile clients_data clients_checking id_column name_column))"

section \<open>Failed replies and example services\<close>

text \<open>A remote call failed: it raised, or its body lacks the entry a success carries.\<close>

definition failed :: "exn + 'a option \<Rightarrow> bool" where
  "failed reply = (case reply of Inl e \<Rightarrow> True | Inr None \<Rightarrow> True | Inr (Some b) \<Rightarrow> False)"

text \<open>
  The normalisation on text that is already in NFKC form (ASCII text, and the
  precomposed letters): it returns its argument. The examples hold such text only.
\<close>

definition already_normal :: "string \<Rightarrow> string" where
  "already_normal s = s"

text \<open>The name Jos\<open>\<acute>\<close>e, with the precomposed letter U+00E9 as its two UTF-8 bytes.\<close>

definition jose_accented :: string where
  "jose_accented = ''Jos'' @ [CHR 0xC3, CHR 0xA9]"

definition client :: "string \<Rightarrow> (string \<times> pyval) list \<Rightarrow> at_record" where
  "client ident fs = \<lparr>rec_id = ident, rec_fields = fs\<rparr>"

definition ok_response :: http_response where
  "ok_response = \<lparr>status_code = 200, text_body = ''{}'', json_tables = None\<rparr>"

text \<open>A service with one table that answers every update and every HTTP call alike.\<close>

definition service ::
  "at_record list \<Rightarrow> (exn + pydict option) \<Rightarrow> (exn + http_response) \<Rightarrow> remote" where
  "service records update_reply http_reply =
     \<lparr>at_get = (\<lambda>table_id fs. Inr (Some records)),
      at_iterate = (\<lambda>table_id. (records, None)),
      at_update = (\<lambda>table_id record_id data. update_reply),
      requests_get = (\<lambda>url. http_reply),
      requests_post = (\<lambda>url data. http_reply)\<rparr>"

text \<open>A service that cannot be reached: every call raises.\<close>

definition offline :: remote where
  "offline =
     \<lparr>at_get = (\<lambda>table_id fs. Inl (RemoteError ''connection refused'')),
      at_iterate = (\<lambda>table_id. ([], Some (RemoteError ''connection refused''))),
      at_update = (\<lambda>table_id record_id data. Inl (RemoteError ''connection refused'')),
      requests_get = (\<lambda>url. Inl (RemoteError ''connection refused'')),
      requests_post = (\<lambda>url data. Inl (RemoteError ''connection refused''))\<rparr>"

text \<open>
  A service holding paginated tables and a schema: the first call returns the first
  page, the generator yields every page in turn.
\<close>

definition paged_service :: "(string \<Rightarrow> at_record list list) \<Rightarrow> table_schema list \<Rightarrow> remote" where
  "paged_service pages tables =
     \<lparr>at_get = (\<lambda>table_id fs. Inr (Some (case pages table_id of [] \<Rightarrow> [] | p # ps \<Rightarrow> p))),
      at_iterate = (\<lambda>table_id. (concat (pages table_id), None)),
      at_update = (\<lambda>table_id record_id data. Inr None),
      requests_get = (\<lambda>url. Inr \<lparr>status_code = 200, text_body = ''{}'', json_tables = Some tables\<rparr>),
      requests_post = (\<lambda>url data. Inr ok_response)\<rparr>"

text \<open>The two tables of the reconciliation example: one client each.\<close>

definition pair_tables ::
  "string \<Rightarrow> string \<Rightarrow> string \<Rightarrow> string \<Rightarrow> string \<Rightarrow> at_record list list" where
  "pair_tables main_id main_name checking_id checking_name table_id =
     (if table_id = ''tblMain''
      then [[client ''recM'' [(''id'', VStr main_id), (''name'', VStr main_name)]]]
      else [[client ''recC'' [(''id'', VStr checking_id), (''name'', VStr checking_name)]]])"

definition bob_schema :: "table_schema list" where
  "bob_schema =
     [\<lparr>ts_id = ''tblMain'', ts_fields = [''id'', ''name'']\<rparr>,
      \<lparr>ts_id = ''tblCheck'', ts_fields = [''id'', ''name'']\<rparr>]"

text \<open>The column of a result, or the exception that took its place.\<close>

definition result_column :: "exn + dataframe \<Rightarrow> string \<Rightarrow> exn + pyval list" where
  "result_column res c = (case res of Inl e \<Rightarrow> Inl e | Inr df \<Rightarrow> column df c)"

text \<open>Clients of the examples. The update flag is a checkbox: set, or absent.\<close>

definition alice :: at_record where
  "alice = client ''recAlice'' [(''Name'', VStr ''Alice''), (''Id'', VStr ''Z9'')]"

definition bob :: at_record where
  "bob = client ''recBob'' [(''Name'', VStr ''Bob''), (''Id'', VStr ''A1'')]"

definition bob_done :: at_record where
  "bob_done =
     client ''recBob'' [(''Name'', VStr ''Bob''), (''Id'', VStr ''A1''), (''Updated'', VBool True)]"

definition carol :: at_record where
  "carol = client ''recCarol'' [(''Name'', VStr ''Carol''), (''Id'', VStr ''C3'')]"

text \<open>Clients whose id column is a link to other records: a list of ids, or nothing.\<close>

definition bob_linked :: at_record where
  "bob_linked = client ''recBob'' [(''Name'', VStr ''Bob''), (''Id'', VList [VStr ''A1''])]"

definition bob_elsewhere :: at_record where
  "bob_elsewhere = client ''recOther'' [(''Name'', VStr ''Bob''), (''Id'', VList [VStr ''B7''])]"

definition bob_draft :: at_record where
  "bob_draft = client ''recDraft'' [(''Name'', VStr ''Bob'')]"

definition jose :: at_record where
  "jose = client ''recJose'' [(''Name'', VStr jose_accented), (''Id'', VList [VStr ''A1''])]"

definition clients_pages :: "string \<Rightarrow> at_record list list" where
  "clients_pages table_id = [[alice, bob], [carol]]"

definition clients_schema :: "table_schema list" where
  "clients_schema =
     [\<lparr>ts_id = ''tblOther'', ts_fields = [''Title'']\<rparr>,
      \<lparr>ts_id = ''tblClients'', ts_fields = [''Id'', ''Name'', ''Updated'']\<rparr>]"

text \<open>
  A service whose table changes between the first call and the generator: each
  returns the records it is given.
\<close>

definition changing_service ::
  "at_record list \<Rightarrow> at_record list \<Rightarrow> table_schema list \<Rightarrow> remote" where
  "changing_service first_call later_calls tables =
     \<lparr>at_get = (\<lambda>table_id fs. Inr (Some first_call)),
      at_iterate = (\<lambda>table_id. (later_calls, None)),
      at_update = (\<lambda>table_id record_id data. Inr None),
      requests_get = (\<lambda>url. Inr \<lparr>status_code = 200, text_body = ''{}'', json_tables = Some tables\<rparr>),
      requests_post = (\<lambda>url data. Inr ok_response)\<rparr>"

text \<open>A table of two pages: Alice on the first, Bob on the second.\<close>

definition two_pages :: "string \<Rightarrow> at_record list list" where
  "two_pages table_id = [[alice], [bob_linked]]"

definition not_found_response :: http_response where
  "not_found_response = \<lparr>status_code = 404, text_body = ''NOT_FOUND'', json_tables = None\<rparr>"

section \<open>Facts about the scans\<close>

lemmas run_defs = get_record_id_def get_record_id_body_def record_matches_def
  verify_and_update_def verify_and_update_body_def update_matches_def update_record_def
  update_flag_def normalize_or_none_def dict_get_def dict_item_def create_comment_def
  service_def offline_def client_def already_normal_def ok_response_def failed_def
  jose_accented_def alice_def bob_def bob_done_def carol_def bob_linked_def
  bob_elsewhere_def bob_draft_def jose_def not_found_response_def comments_url_def
  paged_service_def two_pages_def

lemmas frame_defs = get_client_database_def get_table_def collected_records_def
  get_base_schema_def frame_of_fields_def paged_service_def pair_tables_def bob_schema_def
  client_def reconcile_def unwrap_column_def column_def set_column_def add_index_def
  merge_left_def key_match_def key_of_def without_key_def is_null_def keep_agreed_def
  agreed_cell_def cell_def drop_suffixed_def result_column_def same_record_def
  add_text_def built_column_def changing_service_def clients_schema_def

subsection \<open>The scan of \<open>get_record_id\<close>\<close>

lemma scan_record_id_skip:
  "\<forall>p\<in>set pre. record_matches nfkc i n q p = Inr False \<Longrightarrow>
   scan_record_id nfkc i n q (pre @ rest) = scan_record_id nfkc i n q rest"
  by (induction pre) simp_all

lemma scan_record_id_found:
  "scan_record_id nfkc i n q rs = Inr (Some x) \<Longrightarrow>
   \<exists>r\<in>set rs. record_matches nfkc i n q r = Inr True \<and> rec_id r = x"
proof (induction rs)
  case Nil
  then show ?case by simp
next
  case (Cons r rs)
  then show ?case
    by (cases "record_matches nfkc i n q r") (auto split: bool.splits)
qed

lemma scan_record_id_raises:
  "\<forall>p\<in>set pre. record_matches nfkc i n q p \<noteq> Inr True \<Longrightarrow>
   record_matches nfkc i n q r = Inl e0 \<Longrightarrow>
   \<exists>e. scan_record_id nfkc i n q (pre @ r # post) = Inl e"
proof (induction pre)
  case Nil
  then show ?case by simp
next
  case (Cons p pre)
  then show ?case
    by (cases "record_matches nfkc i n q p") (auto split: bool.splits)
qed

lemma record_matches_needs_id:
  "record_matches nfkc i n q r = Inr True \<Longrightarrow>
   py_in (snd q) (dict_get (rec_fields r) i) = Inr True"
  by (auto simp: record_matches_def split: sum.splits if_splits)

lemma record_matches_needs_name:
  "record_matches nfkc i n q r = Inr True \<Longrightarrow>
   normalize_or_none nfkc (dict_get (rec_fields r) n) = Inr (VStr (fst q))"
  by (auto simp: record_matches_def split: sum.splits if_splits)

lemma get_record_id_none:
  assumes "at_get R t [n, i] = Inr (Some records)"
    and "\<forall>r\<in>set records. record_matches nfkc i n q r \<noteq> Inr True"
  shows "fst (get_record_id nfkc R t i n q) = None"
proof (cases "scan_record_id nfkc i n q records")
  case (Inl e)
  with assms(1) show ?thesis by (simp add: get_record_id_def get_record_id_body_def)
next
  case (Inr res)
  have "res = None"
  proof (cases res)
    case None
    then show ?thesis .
  next
    case (Some x)
    with Inr scan_record_id_found [of nfkc i n q records x] assms(2) show ?thesis by auto
  qed
  with Inr assms(1) show ?thesis by (simp add: get_record_id_def get_record_id_body_def)
qed

subsection \<open>The scan of \<open>verify_and_update\<close>\<close>

lemma scan_update_skip:
  "\<forall>p\<in>set pre. update_matches nfkc n i q p = Inr False \<Longrightarrow>
   scan_update nfkc R t n i u q (pre @ rest) = scan_update nfkc R t n i u q rest"
  by (induction pre) simp_all

lemma verify_and_update_reach:
  assumes "at_get R t [n, i, u] = Inr (Some (pre @ r # post))"
    and "\<forall>p\<in>set pre. update_matches nfkc n i q p = Inr False"
    and "update_matches nfkc n i q r = Inr True"
  shows "verify_and_update_body nfkc R t n i u q = update_record R t n u r"
  using assms by (simp add: verify_and_update_body_def scan_update_skip)

lemma scan_update_failed_write:
  "AtUpdate t' r' d \<in> set (snd (scan_update nfkc R t n i u q rs)) \<Longrightarrow>
   failed (at_update R t' r' d) \<Longrightarrow>
   \<exists>e. fst (scan_update nfkc R t n i u q rs) = Inl e"
proof (induction rs)
  case Nil
  then show ?case by simp
next
  case (Cons r rs)
  then show ?case
    by (auto simp: update_record_def failed_def dict_item_def
        split: sum.splits bool.splits if_splits option.splits)
qed

subsection \<open>The pagination loop\<close>

lemma py_eq_refl:
  "json_value v \<Longrightarrow> py_eq v v"
  "json_values vs \<Longrightarrow> py_eq_list vs vs"
  by (induction v and vs rule: json_value_json_values.induct) auto

lemma dict_eq_refl: "json_values (map snd d) \<Longrightarrow> dict_eq d d"
  by (induction d) (auto simp: py_eq_refl)

lemma same_record_refl: "json_record r \<Longrightarrow> same_record r r"
  by (simp add: same_record_def json_record_def dict_eq_refl)

lemma same_record_id: "same_record r r' \<Longrightarrow> rec_id r = rec_id r'"
  by (simp add: same_record_def)

lemma append_new_extends:
  "\<exists>new. append_new acc ys = acc @ new \<and> set new \<subseteq> set ys"
proof (induction ys arbitrary: acc)
  case Nil
  then show ?case by simp
next
  case (Cons y ys)
  show ?case
  proof (cases "list_ex (same_record y) acc")
    case True
    with Cons [of acc] show ?thesis by auto
  next
    case False
    from Cons [of "acc @ [y]"] obtain new
      where "append_new (acc @ [y]) ys = (acc @ [y]) @ new" and "set new \<subseteq> set ys"
      by blast
    with False have "append_new acc (y # ys) = acc @ (y # new) \<and> set (y # new) \<subseteq> set (y # ys)"
      by auto
    then show ?thesis by blast
  qed
qed

lemma append_new_prefix: "take (length acc) (append_new acc ys) = acc"
  using append_new_extends [of acc ys] by auto

lemma append_new_subset: "set (append_new acc ys) \<subseteq> set acc \<union> set ys"
  using append_new_extends [of acc ys] by auto

lemma append_new_keeps:
  "y \<in> set acc \<or> list_ex (same_record y) acc \<Longrightarrow>
   y \<in> set (append_new acc ys) \<or> list_ex (same_record y) (append_new acc ys)"
  using append_new_extends [of acc ys] by (auto simp: list_ex_iff)

lemma append_new_holds:
  "y \<in> set ys \<Longrightarrow>
   y \<in> set (append_new acc ys) \<or> list_ex (same_record y) (append_new acc ys)"
proof (induction ys arbitrary: acc)
  case Nil
  then show ?case by simp
next
  case (Cons z zs)
  show ?case
  proof (cases "y = z")
    case True
    have "y \<in> set (if list_ex (same_record z) acc then acc else acc @ [z]) \<or>
          list_ex (same_record y) (if list_ex (same_record z) acc then acc else acc @ [z])"
      using True by simp
    from append_new_keeps [OF this, of zs] show ?thesis by simp
  next
    case False
    with Cons.prems have "y \<in> set zs" by simp
    from Cons.IH [OF this] show ?thesis by simp
  qed
qed

lemma append_new_no_repeat:
  "length acc \<le> j \<Longrightarrow> j < length (append_new acc ys) \<Longrightarrow>
   \<not> list_ex (same_record (append_new acc ys ! j)) (take j (append_new acc ys))"
proof (induction ys arbitrary: acc)
  case Nil
  then show ?case by simp
next
  case (Cons y ys)
  show ?case
  proof (cases "list_ex (same_record y) acc")
    case True
    with Cons show ?thesis by simp
  next
    case False
    let ?res = "append_new (acc @ [y]) ys"
    have res: "append_new acc (y # ys) = ?res" using False by simp
    have pre: "take (length (acc @ [y])) ?res = acc @ [y]"
      by (rule append_new_prefix)
    show ?thesis
    proof (cases "j = length acc")
      case True
      from append_new_extends [of "acc @ [y]" ys] obtain new
        where e: "?res = acc @ y # new" by auto
      have "take (length acc) ?res = acc" and "?res ! length acc = y"
        by (simp_all add: e)
      then show ?thesis using False True res by simp
    next
      case False
      with Cons.prems have "length (acc @ [y]) \<le> j" by simp
      moreover from Cons.prems res have "j < length ?res" by simp
      ultimately show ?thesis using Cons.IH [of "acc @ [y]"] res by simp
    qed
  qed
qed

lemma append_new_seen:
  "list_all json_record ys \<Longrightarrow> set ys \<subseteq> set acc \<Longrightarrow> append_new acc ys = acc"
proof (induction ys arbitrary: acc)
  case Nil
  then show ?case by simp
next
  case (Cons y ys)
  then have "list_ex (same_record y) acc"
    by (auto simp: list_ex_iff intro: same_record_refl)
  with Cons show ?case by simp
qed

lemma append_new_fresh:
  "distinct (map rec_id (acc @ ys)) \<Longrightarrow> append_new acc ys = acc @ ys"
proof (induction ys arbitrary: acc)
  case Nil
  then show ?case by simp
next
  case (Cons y ys)
  from Cons.prems have "\<not> list_ex (same_record y) acc"
    by (auto simp: list_ex_iff dest!: same_record_id)
  moreover from Cons.prems have "distinct (map rec_id ((acc @ [y]) @ ys))" by simp
  ultimately show ?case using Cons.IH [of "acc @ [y]"] by simp
qed

lemma append_new_append:
  "append_new acc (xs @ ys) = append_new (append_new acc xs) ys"
  by (induction xs arbitrary: acc) simp_all

lemma append_new_page:
  assumes "distinct (map rec_id all_records)" and "list_all json_record all_records"
  shows "append_new (take k all_records) all_records = all_records"
proof -
  have d: "distinct (map rec_id (take k all_records @ drop k all_records))"
    using assms(1) by simp
  have j: "list_all json_record (take k all_records)"
    using assms(2) by (auto simp: list_all_iff dest: in_set_takeD)
  have "append_new (take k all_records) (take k all_records @ drop k all_records) =
        append_new (take k all_records) (drop k all_records)"
    unfolding append_new_append by (simp only: append_new_seen [OF j subset_refl])
  also have "\<dots> = take k all_records @ drop k all_records"
    by (rule append_new_fresh [OF d])
  finally show ?thesis by (simp only: append_take_drop_id)
qed

lemma schema_columns_find:
  "find (\<lambda>tb. ts_id tb = table_id) tables = Some tb \<Longrightarrow>
   schema_columns tables table_id = ts_fields tb"
  by (induction tables) (auto split: if_splits)

subsection \<open>Join keys\<close>

lemma join_key_eq:
  "i @ '' | '' @ n = i' @ '' | '' @ n' \<Longrightarrow> (i = i') = (n = n')"
  by (metis append_same_eq same_append_eq append.assoc)

section \<open>The claims\<close>

subsection \<open>Reconciliation of two one-row tables\<close>

text \<open>
  Claim C1, as the code has it. The rows are joined on the composite key
  \<open>id | name\<close>. For a main table with the one row (id \<open>i\<close>, name \<open>n\<close>) and a checking
  table with the one row (id \<open>i'\<close>, name \<open>n'\<close>), the output has one row: it keeps both
  id and name when the checking row agrees on both, and has both null otherwise. It
  never keeps one of the two and nulls the other.
\<close>

theorem reconcile_keeps_both_or_neither:
  "get_client_database (paged_service (pair_tables i n i' n') bob_schema) base_id
     ''tblMain'' ''tblCheck'' ''id'' ''name'' =
   Inr \<lparr>df_columns = [''index'', ''name'', ''id''],
        df_rows = [[VStr (i @ '' | '' @ n),
                    if i = i' \<and> n = n' then VStr n else VNone,
                    if i = i' \<and> n = n' then VStr i else VNone]]\<rparr>"
  using join_key_eq [of i n i' n'] by (auto simp: frame_defs)

text \<open>
  The two cases of the claim: checking row A1/Robert gives null name and null id,
  checking row A1/Bob keeps both.
\<close>

theorem reconcile_keeps_both_or_neither_witness:
  "get_client_database (paged_service (pair_tables ''A1'' ''Bob'' ''A1'' ''Robert'') bob_schema)
     ''app'' ''tblMain'' ''tblCheck'' ''id'' ''name'' =
   Inr \<lparr>df_columns = [''index'', ''name'', ''id''],
        df_rows = [[VStr ''A1 | Bob'', VNone, VNone]]\<rparr> \<and>
   get_client_database (paged_service (pair_tables ''A1'' ''Bob'' ''A1'' ''Bob'') bob_schema)
     ''app'' ''tblMain'' ''tblCheck'' ''id'' ''name'' =
   Inr \<lparr>df_columns = [''index'', ''name'', ''id''],
        df_rows = [[VStr ''A1 | Bob'', VStr ''Bob'', VStr ''A1'']]\<rparr>"
  using reconcile_keeps_both_or_neither [of "''A1''" "''Bob''" "''A1''" "''Robert''" "''app''"]
    reconcile_keeps_both_or_neither [of "''A1''" "''Bob''" "''A1''" "''Bob''" "''app''"]
  by simp

text \<open>
  Against claim C1 as stated: with checking row A1/Robert the id of the output row is
  null, it is not retained as A1.
\<close>

theorem reconcile_robert_id_counterexample:
  "result_column
     (get_client_database (paged_service (pair_tables ''A1'' ''Bob'' ''A1'' ''Robert'') bob_schema)
        ''app'' ''tblMain'' ''tblCheck'' ''id'' ''name'') ''id'' = Inr [VNone] \<and>
   result_column
     (get_client_database (paged_service (pair_tables ''A1'' ''Bob'' ''A1'' ''Robert'') bob_schema)
        ''app'' ''tblMain'' ''tblCheck'' ''id'' ''name'') ''id'' \<noteq> Inr [VStr ''A1'']"
  by (simp add: frame_defs)

subsection \<open>Verify-and-Update on a record that is not flagged\<close>

text \<open>
  Claim C2, as the code has it. When the scan reaches a first matching record whose
  update flag is not set, and the field write answers with the fields of the record,
  name column included, \<open>verify_and_update\<close> returns true after exactly one remote
  field write, which sets the update column to true, and after no comment post: the
  audit trail is a printed line, not a remote comment.
\<close>

theorem verify_and_update_single_write:
  assumes "at_get R t [n, i, u] = Inr (Some (pre @ r # post))"
    and "\<forall>p\<in>set pre. update_matches nfkc n i q p = Inr False"
    and "update_matches nfkc n i q r = Inr True"
    and "\<not> update_flag r u"
    and "at_update R t (rec_id r) [(u, VBool True)] = Inr (Some fs)"
    and "map_of fs n = Some v"
  shows "fst (verify_and_update nfkc R t n i u q) = True \<and>
         filter is_field_write (snd (verify_and_update nfkc R t n i u q)) =
           [AtUpdate t (rec_id r) [(u, VBool True)]] \<and>
         filter is_comment_post (snd (verify_and_update nfkc R t n i u q)) = [] \<and>
         snd (verify_and_update nfkc R t n i u q) =
           [AtGet t [n, i, u], AtUpdate t (rec_id r) [(u, VBool True)], Print (UpdateDone v)]"
  using assms(4-6) verify_and_update_reach [OF assms(1-3)]
  by (simp add: verify_and_update_def update_record_def dict_item_def)

theorem verify_and_update_single_write_witness:
  "fst (verify_and_update already_normal
          (service [alice, bob] (Inr (Some (rec_fields bob_done))) (Inr ok_response))
          ''tblClients'' ''Name'' ''Id'' ''Updated'' (''Bob'', ''A1'')) = True \<and>
   snd (verify_and_update already_normal
          (service [alice, bob] (Inr (Some (rec_fields bob_done))) (Inr ok_response))
          ''tblClients'' ''Name'' ''Id'' ''Updated'' (''Bob'', ''A1'')) =
     [AtGet ''tblClients'' [''Name'', ''Id'', ''Updated''],
      AtUpdate ''tblClients'' ''recBob'' [(''Updated'', VBool True)],
      Print (UpdateDone (VStr ''Bob''))]"
proof -
  let ?R = "service [alice, bob] (Inr (Some (rec_fields bob_done))) (Inr ok_response)"
  have h1: "at_get ?R ''tblClients'' [''Name'', ''Id'', ''Updated''] = Inr (Some ([alice] @ bob # []))"
    by (simp add: service_def)
  have h2: "\<forall>p\<in>set [alice]. update_matches already_normal ''Name'' ''Id'' (''Bob'', ''A1'') p = Inr False"
    by (simp add: run_defs)
  have h3: "update_matches already_normal ''Name'' ''Id'' (''Bob'', ''A1'') bob = Inr True"
    by (simp add: run_defs)
  have h4: "\<not> update_flag bob ''Updated''"
    by (simp add: run_defs)
  have h5: "at_update ?R ''tblClients'' (rec_id bob) [(''Updated'', VBool True)] =
              Inr (Some (rec_fields bob_done))"
    by (simp add: service_def)
  have h6: "map_of (rec_fields bob_done) ''Name'' = Some (VStr ''Bob'')"
    by (simp add: run_defs)
  from verify_and_update_single_write [OF h1 h2 h3 h4 h5 h6]
  show ?thesis by (simp add: bob_def client_def)
qed

text \<open>
  Against claim C2 as stated: a matching record without the flag, one field write, a
  true result, and no comment posted to the remote service.
\<close>

theorem verify_and_update_no_comment_counterexample:
  "update_matches already_normal ''Name'' ''Id'' (''Bob'', ''A1'') bob = Inr True \<and>
   \<not> update_flag bob ''Updated'' \<and>
   fst (verify_and_update already_normal
          (service [bob] (Inr (Some (rec_fields bob_done))) (Inr ok_response))
          ''tblClients'' ''Name'' ''Id'' ''Updated'' (''Bob'', ''A1'')) = True \<and>
   length (filter is_field_write
     (snd (verify_and_update already_normal
          (service [bob] (Inr (Some (rec_fields bob_done))) (Inr ok_response))
          ''tblClients'' ''Name'' ''Id'' ''Updated'' (''Bob'', ''A1'')))) = 1 \<and>
   length (filter is_comment_post
     (snd (verify_and_update already_normal
          (service [bob] (Inr (Some (rec_fields bob_done))) (Inr ok_response))
          ''tblClients'' ''Name'' ''Id'' ''Updated'' (''Bob'', ''A1'')))) = 0"
  by (simp add: run_defs)

subsection \<open>Fetching a whole table\<close>

text \<open>
  Claim C3, as the code has it. When the listing and the schema calls succeed,
  \<open>get_table\<close> holds the records of the first page, followed by records the generator
  yielded; every yielded record is held or has an equal record held, and no appended
  record is equal to a record held before it. Equal means equal as a whole record,
  identifier and fields, not equal by identifier. The frame has one row per record
  held and the columns the schema declares for the table, in that order. When the
  generator yields N records of distinct identifiers and the first page is the head
  of what it yields, the records held are exactly those N.
\<close>

theorem get_table_all_records:
  assumes "at_get R table_id [] = Inr (Some first_page)"
    and "at_iterate R table_id = (yielded, None)"
    and "requests_get R (schema_url base_id) = Inr response"
    and "status_code response = 200"
    and "json_tables response = Some tables"
    and "find (\<lambda>tb. ts_id tb = table_id) tables = Some tb"
  shows "\<exists>recs.
           collected_records R table_id = Inr (Some recs) \<and>
           take (length first_page) recs = first_page \<and>
           set recs \<subseteq> set first_page \<union> set yielded \<and>
           (\<forall>y\<in>set yielded. y \<in> set recs \<or> list_ex (same_record y) recs) \<and>
           (\<forall>j. length first_page \<le> j \<and> j < length recs \<longrightarrow>
                \<not> list_ex (same_record (recs ! j)) (take j recs)) \<and>
           get_table R base_id table_id =
             Inr (frame_of_fields (ts_fields tb) (map rec_fields recs)) \<and>
           df_columns (frame_of_fields (ts_fields tb) (map rec_fields recs)) = ts_fields tb \<and>
           length (df_rows (frame_of_fields (ts_fields tb) (map rec_fields recs))) = length recs \<and>
           (list_all json_record yielded \<and> distinct (map rec_id yielded) \<and>
            first_page = take k yielded \<longrightarrow> recs = yielded)"
proof -
  let ?recs = "append_new first_page yielded"
  have c: "collected_records R table_id = Inr (Some ?recs)"
    using assms(1,2) by (simp add: collected_records_def)
  have s: "get_base_schema R base_id = Inr (Some tables)"
    using assms(3-5) by (simp add: get_base_schema_def)
  have g: "get_table R base_id table_id =
             Inr (frame_of_fields (ts_fields tb) (map rec_fields ?recs))"
    using c s by (simp add: get_table_def schema_columns_find [OF assms(6)])
  have p: "take (length first_page) ?recs = first_page"
    by (rule append_new_prefix)
  have u: "set ?recs \<subseteq> set first_page \<union> set yielded"
    by (rule append_new_subset)
  have h: "\<forall>y\<in>set yielded. y \<in> set ?recs \<or> list_ex (same_record y) ?recs"
    by (intro ballI append_new_holds)
  have n: "\<forall>j. length first_page \<le> j \<and> j < length ?recs \<longrightarrow>
                \<not> list_ex (same_record (?recs ! j)) (take j ?recs)"
    by (intro allI impI append_new_no_repeat) simp_all
  have f1: "df_columns (frame_of_fields (ts_fields tb) (map rec_fields ?recs)) = ts_fields tb"
    by (simp add: frame_of_fields_def)
  have f2: "length (df_rows (frame_of_fields (ts_fields tb) (map rec_fields ?recs))) =
              length ?recs"
    by (simp add: frame_of_fields_def)
  have st: "list_all json_record yielded \<and> distinct (map rec_id yielded) \<and>
            first_page = take k yielded \<longrightarrow> ?recs = yielded"
  proof
    assume a: "list_all json_record yielded \<and> distinct (map rec_id yielded) \<and>
            first_page = take k yielded"
    then have "append_new (take k yielded) yielded = yielded"
      by (intro append_new_page) simp_all
    with a show "?recs = yielded" by simp
  qed
  show ?thesis
    by (intro exI [of _ ?recs] conjI c p u h n g f1 f2 st)
qed

text \<open>A table of three records on two pages, unchanged between the calls.\<close>

theorem get_table_all_records_witness:
  "get_table (paged_service clients_pages clients_schema) ''app'' ''tblClients'' =
     Inr \<lparr>df_columns = [''Id'', ''Name'', ''Updated''],
          df_rows = [[VStr ''Z9'', VStr ''Alice'', VNaN],
                     [VStr ''A1'', VStr ''Bob'', VNaN],
                     [VStr ''C3'', VStr ''Carol'', VNaN]]\<rparr>"
proof -
  let ?R = "paged_service clients_pages clients_schema"
  let ?tb = "\<lparr>ts_id = ''tblClients'', ts_fields = [''Id'', ''Name'', ''Updated'']\<rparr>"
  have h1: "at_get ?R ''tblClients'' [] = Inr (Some [alice, bob])"
    by (simp add: paged_service_def clients_pages_def)
  have h2: "at_iterate ?R ''tblClients'' = ([alice, bob, carol], None)"
    by (simp add: paged_service_def clients_pages_def)
  have h3: "requests_get ?R (schema_url ''app'') =
              Inr \<lparr>status_code = 200, text_body = ''{}'', json_tables = Some clients_schema\<rparr>"
    by (simp add: paged_service_def)
  have h4: "status_code \<lparr>status_code = 200, text_body = ''{}'',
              json_tables = Some clients_schema\<rparr> = 200"
    by simp
  have h5: "json_tables \<lparr>status_code = 200, text_body = ''{}'',
              json_tables = Some clients_schema\<rparr> = Some clients_schema"
    by simp
  have h6: "find (\<lambda>tb. ts_id tb = ''tblClients'') clients_schema = Some ?tb"
    by (simp add: clients_schema_def)
  have st: "list_all json_record [alice, bob, carol] \<and>
            distinct (map rec_id [alice, bob, carol]) \<and>
            [alice, bob] = take 2 [alice, bob, carol]"
    by (simp add: json_record_def alice_def bob_def carol_def client_def)
  from get_table_all_records [OF h1 h2 h3 h4 h5 h6, where k = 2]
  obtain recs where
    g: "get_table ?R ''app'' ''tblClients'' =
          Inr (frame_of_fields (ts_fields ?tb) (map rec_fields recs))"
    and s: "list_all json_record [alice, bob, carol] \<and>
            distinct (map rec_id [alice, bob, carol]) \<and>
            [alice, bob] = take 2 [alice, bob, carol] \<longrightarrow> recs = [alice, bob, carol]"
    by blast
  from s st have "recs = [alice, bob, carol]" by (rule mp)
  with g have "get_table ?R ''app'' ''tblClients'' =
          Inr (frame_of_fields (ts_fields ?tb) (map rec_fields [alice, bob, carol]))"
    by simp
  then show ?thesis
    by (simp add: frame_of_fields_def alice_def bob_def carol_def client_def)
qed

text \<open>
  Against claim C3 as stated: the one record of the table is edited between the first
  call and the generator. The two versions differ as records, so both are held: two
  rows of one identifier for a table of one record, where suppression by identifier
  would hold one.
\<close>

theorem get_table_edited_record_counterexample:
  "collected_records (changing_service [bob] [bob_done] clients_schema) ''tblClients'' =
     Inr (Some [bob, bob_done]) \<and>
   map rec_id [bob, bob_done] = [''recBob'', ''recBob''] \<and>
   append_new_by_id [bob] [bob_done] = [bob] \<and>
   get_table (changing_service [bob] [bob_done] clients_schema) ''app'' ''tblClients'' =
     Inr \<lparr>df_columns = [''Id'', ''Name'', ''Updated''],
          df_rows = [[VStr ''A1'', VStr ''Bob'', VNaN],
                     [VStr ''A1'', VStr ''Bob'', VBool True]]\<rparr>"
  by (simp add: collected_records_def get_table_def get_base_schema_def frame_of_fields_def
      changing_service_def clients_schema_def same_record_def bob_def bob_done_def client_def)

subsection \<open>The result of the Record Matcher\<close>

text \<open>
  Claim C4 says that \<open>get_record_id\<close> returns the identifier of the first record that
  matches on both name and id. The code departs from it at two tables. In the first, a
  record with the name Bob and no id field comes before the Bob who holds A1: the
  containment test of the first record raises on the missing id, the handler prints
  the error, and the result is none. In the second, Alice fills the first page and
  the Bob who holds A1 is on the second: only the first page is read, and the result
  is none.
\<close>

theorem get_record_id_misses_match:
  "record_matches already_normal ''Id'' ''Name'' (''Bob'', ''A1'') bob_linked = Inr True \<and>
   record_matches already_normal ''Id'' ''Name'' (''Bob'', ''A1'') bob_draft = Inl TypeError \<and>
   get_record_id already_normal (service [bob_draft, bob_linked] (Inr None) (Inr ok_response))
     ''tblClients'' ''Id'' ''Name'' (''Bob'', ''A1'') =
     (None, [AtGet ''tblClients'' [''Name'', ''Id''], Print (ErrorGetRecordId TypeError)]) \<and>
   record_matches already_normal ''Id'' ''Name'' (''Bob'', ''A1'') alice = Inr False \<and>
   get_record_id already_normal (paged_service two_pages clients_schema)
     ''tblClients'' ''Id'' ''Name'' (''Bob'', ''A1'') =
     (None, [AtGet ''tblClients'' [''Name'', ''Id'']])"
  by (simp add: run_defs)

text \<open>
  The result of \<open>get_record_id\<close> on the records its one remote read returns: none when
  no record's id field contains the query id, none when no record's normalised name
  equals the query name (Jos\<open>\<acute>\<close>e with the accent is not Jose, whenever the
  normalisation keeps the accent), and the identifier of the first record passing the
  test when every record before it fails the test without raising.
\<close>

theorem get_record_id_result:
  assumes "at_get R t [n, i] = Inr (Some records)"
  shows "((\<forall>r\<in>set records. py_in qi (dict_get (rec_fields r) i) \<noteq> Inr True) \<longrightarrow>
            fst (get_record_id nfkc R t i n (qn, qi)) = None) \<and>
         ((\<forall>r\<in>set records.
              normalize_or_none nfkc (dict_get (rec_fields r) n) \<noteq> Inr (VStr qn)) \<longrightarrow>
            fst (get_record_id nfkc R t i n (qn, qi)) = None) \<and>
         (\<forall>pre r post. records = pre @ r # post \<and>
            (\<forall>p\<in>set pre. record_matches nfkc i n (qn, qi) p = Inr False) \<and>
            record_matches nfkc i n (qn, qi) r = Inr True \<longrightarrow>
            fst (get_record_id nfkc R t i n (qn, qi)) = Some (rec_id r))"
proof (intro conjI impI allI)
  assume "\<forall>r\<in>set records. py_in qi (dict_get (rec_fields r) i) \<noteq> Inr True"
  then have "\<forall>r\<in>set records. record_matches nfkc i n (qn, qi) r \<noteq> Inr True"
    using record_matches_needs_id [of nfkc i n "(qn, qi)"] by auto
  then show "fst (get_record_id nfkc R t i n (qn, qi)) = None"
    by (rule get_record_id_none [OF assms])
next
  assume "\<forall>r\<in>set records. normalize_or_none nfkc (dict_get (rec_fields r) n) \<noteq> Inr (VStr qn)"
  then have "\<forall>r\<in>set records. record_matches nfkc i n (qn, qi) r \<noteq> Inr True"
    using record_matches_needs_name [of nfkc i n "(qn, qi)"] by auto
  then show "fst (get_record_id nfkc R t i n (qn, qi)) = None"
    by (rule get_record_id_none [OF assms])
next
  fix pre r post
  assume h: "records = pre @ r # post \<and>
            (\<forall>p\<in>set pre. record_matches nfkc i n (qn, qi) p = Inr False) \<and>
            record_matches nfkc i n (qn, qi) r = Inr True"
  then have "scan_record_id nfkc i n (qn, qi) records = Inr (Some (rec_id r))"
    by (simp add: scan_record_id_skip)
  with assms show "fst (get_record_id nfkc R t i n (qn, qi)) = Some (rec_id r)"
    by (simp add: get_record_id_def get_record_id_body_def)
qed

text \<open>
  Three tables: a Bob whose ids do not hold A1, a Jos\<open>\<acute>\<close>e asked for as Jose, and a Bob
  holding A1 after an Alice.
\<close>

theorem get_record_id_result_witness:
  "fst (get_record_id already_normal (service [bob_elsewhere] (Inr None) (Inr ok_response))
          ''tblClients'' ''Id'' ''Name'' (''Bob'', ''A1'')) = None \<and>
   fst (get_record_id already_normal (service [jose] (Inr None) (Inr ok_response))
          ''tblClients'' ''Id'' ''Name'' (''Jose'', ''A1'')) = None \<and>
   fst (get_record_id already_normal (service [alice, bob_linked] (Inr None) (Inr ok_response))
          ''tblClients'' ''Id'' ''Name'' (''Bob'', ''A1'')) = Some ''recBob''"
proof -
  let ?R1 = "service [bob_elsewhere] (Inr None) (Inr ok_response)"
  let ?R2 = "service [jose] (Inr None) (Inr ok_response)"
  let ?R3 = "service [alice, bob_linked] (Inr None) (Inr ok_response)"
  have g1: "at_get ?R1 ''tblClients'' [''Name'', ''Id''] = Inr (Some [bob_elsewhere])"
    by (simp add: service_def)
  have a1: "\<forall>r\<in>set [bob_elsewhere]. py_in ''A1'' (dict_get (rec_fields r) ''Id'') \<noteq> Inr True"
    by (simp add: run_defs)
  have g2: "at_get ?R2 ''tblClients'' [''Name'', ''Id''] = Inr (Some [jose])"
    by (simp add: service_def)
  have a2: "\<forall>r\<in>set [jose].
      normalize_or_none already_normal (dict_get (rec_fields r) ''Name'') \<noteq> Inr (VStr ''Jose'')"
    by (simp add: run_defs)
  have g3: "at_get ?R3 ''tblClients'' [''Name'', ''Id''] = Inr (Some [alice, bob_linked])"
    by (simp add: service_def)
  have a3: "[alice, bob_linked] = [alice] @ bob_linked # [] \<and>
      (\<forall>p\<in>set [alice]. record_matches already_normal ''Id'' ''Name'' (''Bob'', ''A1'') p = Inr False) \<and>
      record_matches already_normal ''Id'' ''Name'' (''Bob'', ''A1'') bob_linked = Inr True"
    by (simp add: run_defs)
  from get_record_id_result [OF g1, of "''A1''" already_normal "''Bob''"] a1
  have c1: "fst (get_record_id already_normal ?R1 ''tblClients'' ''Id'' ''Name'' (''Bob'', ''A1'')) = None"
    by blast
  from get_record_id_result [OF g2, of "''A1''" already_normal "''Jose''"] a2
  have c2: "fst (get_record_id already_normal ?R2 ''tblClients'' ''Id'' ''Name'' (''Jose'', ''A1'')) = None"
    by blast
  from get_record_id_result [OF g3, of "''A1''" already_normal "''Bob''"] a3
  have c3: "fst (get_record_id already_normal ?R3 ''tblClients'' ''Id'' ''Name'' (''Bob'', ''A1'')) =
              Some (rec_id bob_linked)"
    by blast
  from c1 c2 c3 show ?thesis by (simp add: bob_linked_def client_def)
qed

subsection \<open>Verify-and-Update on a record that is found\<close>

text \<open>
  Claim C5, as the code has it. When the scan reaches a first matching record whose
  update flag is exactly true, \<open>verify_and_update\<close> returns true and makes no remote
  call but the read. When the flag of that record is not set, the result is true
  exactly when the field write answers with the fields of the record, name column
  included; it is false when the write fails.
\<close>

theorem verify_and_update_found:
  assumes "at_get R t [n, i, u] = Inr (Some (pre @ r # post))"
    and "\<forall>p\<in>set pre. update_matches nfkc n i q p = Inr False"
    and "update_matches nfkc n i q r = Inr True"
  shows "(map_of (rec_fields r) u = Some (VBool True) \<longrightarrow>
            verify_and_update nfkc R t n i u q = (True, [AtGet t [n, i, u]])) \<and>
         (\<not> update_flag r u \<longrightarrow>
            fst (verify_and_update nfkc R t n i u q) =
              (\<exists>fs v. at_update R t (rec_id r) [(u, VBool True)] = Inr (Some fs) \<and>
                       map_of fs n = Some v))"
  using verify_and_update_reach [OF assms]
  by (auto simp: verify_and_update_def update_record_def update_flag_def dict_item_def
      split: sum.splits option.splits)

theorem verify_and_update_found_witness:
  "map_of (rec_fields bob_done) ''Updated'' = Some (VBool True) \<and>
   verify_and_update already_normal
     (service [alice, bob_done, carol] (Inl (RemoteError ''not called'')) (Inr ok_response))
     ''tblClients'' ''Name'' ''Id'' ''Updated'' (''Bob'', ''A1'') =
     (True, [AtGet ''tblClients'' [''Name'', ''Id'', ''Updated'']]) \<and>
   \<not> update_flag carol ''Updated'' \<and>
   fst (verify_and_update already_normal
     (service [alice, bob_done, carol] (Inr (Some (rec_fields carol))) (Inr ok_response))
     ''tblClients'' ''Name'' ''Id'' ''Updated'' (''Carol'', ''C3'')) = True"
proof -
  let ?R1 = "service [alice, bob_done, carol] (Inl (RemoteError ''not called'')) (Inr ok_response)"
  let ?R2 = "service [alice, bob_done, carol] (Inr (Some (rec_fields carol))) (Inr ok_response)"
  have g1: "at_get ?R1 ''tblClients'' [''Name'', ''Id'', ''Updated''] =
              Inr (Some ([alice] @ bob_done # [carol]))"
    by (simp add: service_def)
  have p1: "\<forall>p\<in>set [alice]. update_matches already_normal ''Name'' ''Id'' (''Bob'', ''A1'') p = Inr False"
    by (simp add: run_defs)
  have m1: "update_matches already_normal ''Name'' ''Id'' (''Bob'', ''A1'') bob_done = Inr True"
    by (simp add: run_defs)
  have f1: "map_of (rec_fields bob_done) ''Updated'' = Some (VBool True)"
    by (simp add: run_defs)
  have g2: "at_get ?R2 ''tblClients'' [''Name'', ''Id'', ''Updated''] =
              Inr (Some ([alice, bob_done] @ carol # []))"
    by (simp add: service_def)
  have p2: "\<forall>p\<in>set [alice, bob_done].
              update_matches already_normal ''Name'' ''Id'' (''Carol'', ''C3'') p = Inr False"
    by (simp add: run_defs)
  have m2: "update_matches already_normal ''Name'' ''Id'' (''Carol'', ''C3'') carol = Inr True"
    by (simp add: run_defs)
  have f2: "\<not> update_flag carol ''Updated''"
    by (simp add: run_defs)
  have w2: "\<exists>fs v. at_update ?R2 ''tblClients'' (rec_id carol) [(''Updated'', VBool True)] =
              Inr (Some fs) \<and> map_of fs ''Name'' = Some v"
    by (simp add: run_defs)
  from verify_and_update_found [OF g1 p1 m1] f1
  have c1: "verify_and_update already_normal ?R1 ''tblClients'' ''Name'' ''Id'' ''Updated''
              (''Bob'', ''A1'') = (True, [AtGet ''tblClients'' [''Name'', ''Id'', ''Updated'']])"
    by blast
  from verify_and_update_found [OF g2 p2 m2] f2 w2
  have c2: "fst (verify_and_update already_normal ?R2 ''tblClients'' ''Name'' ''Id'' ''Updated''
              (''Carol'', ''C3'')) = True"
    by blast
  from f1 c1 f2 c2 show ?thesis by blast
qed

text \<open>
  Against claim C5 as stated: a record matches, the field write raises, and the
  result is false.
\<close>

theorem verify_and_update_failed_write_counterexample:
  "update_matches already_normal ''Name'' ''Id'' (''Bob'', ''A1'') bob = Inr True \<and>
   verify_and_update already_normal
     (service [bob] (Inl (RemoteError ''timeout'')) (Inr ok_response))
     ''tblClients'' ''Name'' ''Id'' ''Updated'' (''Bob'', ''A1'') =
     (False, [AtGet ''tblClients'' [''Name'', ''Id'', ''Updated''],
              AtUpdate ''tblClients'' ''recBob'' [(''Updated'', VBool True)],
              Print (ErrorCheckUpdate (RemoteError ''timeout''))])"
  by (simp add: run_defs)

subsection \<open>Remote failures in the matcher and in Verify-and-Update\<close>

text \<open>
  Claim C6. When the remote read fails (it raises, or its body has no records),
  \<open>get_record_id\<close> returns none and \<open>verify_and_update\<close> returns false; when the field
  write that \<open>verify_and_update\<close> issued fails, it returns false as well. Both results
  are values, not exceptions, and they are the results of a table without records.
\<close>

theorem remote_failure_swallowed:
  "(failed (at_get R t [n, i]) \<longrightarrow> fst (get_record_id nfkc R t i n q) = None) \<and>
   (failed (at_get R t [n, i, u]) \<longrightarrow> fst (verify_and_update nfkc R t n i u q) = False) \<and>
   (\<forall>t' r' d. AtUpdate t' r' d \<in> set (snd (verify_and_update nfkc R t n i u q)) \<and>
       failed (at_update R t' r' d) \<longrightarrow> fst (verify_and_update nfkc R t n i u q) = False) \<and>
   (at_get R t [n, i] = Inr (Some []) \<longrightarrow> fst (get_record_id nfkc R t i n q) = None) \<and>
   (at_get R t [n, i, u] = Inr (Some []) \<longrightarrow> fst (verify_and_update nfkc R t n i u q) = False)"
proof (intro conjI impI allI)
  assume "failed (at_get R t [n, i])"
  then show "fst (get_record_id nfkc R t i n q) = None"
    by (auto simp: failed_def get_record_id_def get_record_id_body_def
        split: sum.splits option.splits)
next
  assume "failed (at_get R t [n, i, u])"
  then show "fst (verify_and_update nfkc R t n i u q) = False"
    by (auto simp: failed_def verify_and_update_def verify_and_update_body_def
        split: sum.splits option.splits)
next
  fix t' r' d
  assume h: "AtUpdate t' r' d \<in> set (snd (verify_and_update nfkc R t n i u q)) \<and>
       failed (at_update R t' r' d)"
  show "fst (verify_and_update nfkc R t n i u q) = False"
  proof (cases "at_get R t [n, i, u]")
    case (Inl e)
    then show ?thesis by (simp add: verify_and_update_def verify_and_update_body_def)
  next
    case (Inr page)
    show ?thesis
    proof (cases page)
      case None
      with Inr show ?thesis by (simp add: verify_and_update_def verify_and_update_body_def)
    next
      case (Some records)
      with Inr have body:
        "verify_and_update_body nfkc R t n i u q = scan_update nfkc R t n i u q records"
        by (simp add: verify_and_update_body_def)
      obtain res tr where s: "scan_update nfkc R t n i u q records = (res, tr)"
        by (cases "scan_update nfkc R t n i u q records")
      with h body have "AtUpdate t' r' d \<in> set tr"
        by (cases res) (auto simp: verify_and_update_def)
      with s h scan_update_failed_write [of t' r' d nfkc R t n i u q records]
      obtain e where "res = Inl e" by auto
      with s body show ?thesis by (simp add: verify_and_update_def)
    qed
  qed
next
  assume "at_get R t [n, i] = Inr (Some [])"
  then show "fst (get_record_id nfkc R t i n q) = None"
    by (simp add: get_record_id_def get_record_id_body_def)
next
  assume "at_get R t [n, i, u] = Inr (Some [])"
  then show "fst (verify_and_update nfkc R t n i u q) = False"
    by (simp add: verify_and_update_def verify_and_update_body_def)
qed

text \<open>
  An unreachable service for the read, and a service whose field write returns a
  body without fields.
\<close>

theorem remote_failure_swallowed_witness:
  "failed (at_get offline ''tblClients'' [''Name'', ''Id'']) \<and>
   fst (get_record_id already_normal offline ''tblClients'' ''Id'' ''Name'' (''Bob'', ''A1'')) = None \<and>
   failed (at_get offline ''tblClients'' [''Name'', ''Id'', ''Updated'']) \<and>
   fst (verify_and_update already_normal offline ''tblClients'' ''Name'' ''Id'' ''Updated''
          (''Bob'', ''A1'')) = False \<and>
   AtUpdate ''tblClients'' ''recBob'' [(''Updated'', VBool True)]
     \<in> set (snd (verify_and_update already_normal
                   (service [alice, bob] (Inr None) (Inr ok_response))
                   ''tblClients'' ''Name'' ''Id'' ''Updated'' (''Bob'', ''A1''))) \<and>
   failed (at_update (service [alice, bob] (Inr None) (Inr ok_response))
             ''tblClients'' ''recBob'' [(''Updated'', VBool True)]) \<and>
   fst (verify_and_update already_normal (service [alice, bob] (Inr None) (Inr ok_response))
          ''tblClients'' ''Name'' ''Id'' ''Updated'' (''Bob'', ''A1'')) = False"
proof -
  let ?R = "service [alice, bob] (Inr None) (Inr ok_response)"
  have f1: "failed (at_get offline ''tblClients'' [''Name'', ''Id''])"
    by (simp add: run_defs)
  have f2: "failed (at_get offline ''tblClients'' [''Name'', ''Id'', ''Updated''])"
    by (simp add: run_defs)
  have w: "AtUpdate ''tblClients'' ''recBob'' [(''Updated'', VBool True)]
     \<in> set (snd (verify_and_update already_normal ?R
                   ''tblClients'' ''Name'' ''Id'' ''Updated'' (''Bob'', ''A1'')))"
    by (simp add: run_defs)
  have f3: "failed (at_update ?R ''tblClients'' ''recBob'' [(''Updated'', VBool True)])"
    by (simp add: run_defs)
  from remote_failure_swallowed
         [of offline "''tblClients''" "''Name''" "''Id''" already_normal "(''Bob'', ''A1'')" "''Updated''"]
    f1 f2
  have c1: "fst (get_record_id already_normal offline ''tblClients'' ''Id'' ''Name'' (''Bob'', ''A1'')) = None \<and>
            fst (verify_and_update already_normal offline ''tblClients'' ''Name'' ''Id'' ''Updated''
                   (''Bob'', ''A1'')) = False"
    by blast
  from remote_failure_swallowed
         [of ?R "''tblClients''" "''Name''" "''Id''" already_normal "(''Bob'', ''A1'')" "''Updated''"]
    w f3
  have c2: "fst (verify_and_update already_normal ?R ''tblClients'' ''Name'' ''Id'' ''Updated''
                   (''Bob'', ''A1'')) = False"
    by blast
  from f1 f2 w f3 c1 c2 show ?thesis by blast
qed

subsection \<open>Posting a comment\<close>

text \<open>
  Claim C7, as the code has it. \<open>create_comment\<close> makes one POST. When the POST
  returns a response, the result is true exactly when the status is 200, and on any
  other status the error line is printed and the result is false. An exception
  raised by the POST itself is not caught: it leaves the function.
\<close>

theorem create_comment_result:
  "(requests_post R (comments_url b t r) [(''text'', c)] = Inr resp \<longrightarrow>
      fst (create_comment R b t r c) = Inr (status_code resp = 200) \<and>
      (status_code resp \<noteq> 200 \<longrightarrow>
         Print (ErrorCreatingComment r (status_code resp) (text_body resp))
           \<in> set (snd (create_comment R b t r c)))) \<and>
   (requests_post R (comments_url b t r) [(''text'', c)] = Inl e \<longrightarrow>
      fst (create_comment R b t r c) = Inl e) \<and>
   filter is_comment_post (snd (create_comment R b t r c)) =
     [HttpPost (comments_url b t r) [(''text'', c)]]"
  by (auto simp: create_comment_def split: sum.splits)

theorem create_comment_result_witness:
  "fst (create_comment (service [] (Inr None) (Inr ok_response))
          ''app'' ''tblClients'' ''recBob'' ''checked'') = Inr True \<and>
   fst (create_comment (service [] (Inr None) (Inr not_found_response))
          ''app'' ''tblClients'' ''recBob'' ''checked'') = Inr False \<and>
   Print (ErrorCreatingComment ''recBob'' 404 ''NOT_FOUND'')
     \<in> set (snd (create_comment (service [] (Inr None) (Inr not_found_response))
                   ''app'' ''tblClients'' ''recBob'' ''checked'')) \<and>
   fst (create_comment (service [] (Inr None) (Inl (RemoteError ''timeout'')))
          ''app'' ''tblClients'' ''recBob'' ''checked'') = Inl (RemoteError ''timeout'')"
proof -
  let ?R1 = "service [] (Inr None) (Inr ok_response)"
  let ?R2 = "service [] (Inr None) (Inr not_found_response)"
  let ?R3 = "service [] (Inr None) (Inl (RemoteError ''timeout''))"
  have p1: "requests_post ?R1 (comments_url ''app'' ''tblClients'' ''recBob'') [(''text'', ''checked'')] =
              Inr ok_response"
    by (simp add: service_def)
  have p2: "requests_post ?R2 (comments_url ''app'' ''tblClients'' ''recBob'') [(''text'', ''checked'')] =
              Inr not_found_response"
    by (simp add: service_def)
  have p3: "requests_post ?R3 (comments_url ''app'' ''tblClients'' ''recBob'') [(''text'', ''checked'')] =
              Inl (RemoteError ''timeout'')"
    by (simp add: service_def)
  from create_comment_result [of ?R1 "''app''" "''tblClients''" "''recBob''" "''checked''" ok_response] p1
  have c1: "fst (create_comment ?R1 ''app'' ''tblClients'' ''recBob'' ''checked'') = Inr True"
    by (simp add: ok_response_def)
  from create_comment_result
         [of ?R2 "''app''" "''tblClients''" "''recBob''" "''checked''" not_found_response] p2
  have c2: "fst (create_comment ?R2 ''app'' ''tblClients'' ''recBob'' ''checked'') = Inr False \<and>
            Print (ErrorCreatingComment ''recBob'' 404 ''NOT_FOUND'')
              \<in> set (snd (create_comment ?R2 ''app'' ''tblClients'' ''recBob'' ''checked''))"
    by (simp add: not_found_response_def)
  from create_comment_result
         [of ?R3 "''app''" "''tblClients''" "''recBob''" "''checked''" _ "RemoteError ''timeout''"] p3
  have c3: "fst (create_comment ?R3 ''app'' ''tblClients'' ''recBob'' ''checked'') =
              Inl (RemoteError ''timeout'')"
    by blast
  from c1 c2 c3 show ?thesis by blast
qed

text \<open>
  Against claim C7 as stated: the service cannot be reached, the POST raises, and the
  call ends in that exception, not in false.
\<close>

theorem create_comment_raises_counterexample:
  "fst (create_comment offline ''app'' ''tblClients'' ''recBob'' ''checked'') =
     Inl (RemoteError ''connection refused'') \<and>
   fst (create_comment offline ''app'' ''tblClients'' ''recBob'' ''checked'') \<noteq> Inr False"
  by (simp add: run_defs)

subsection \<open>A false result after a write\<close>

text \<open>
  Claim C8. When the scan reaches a first matching record whose flag is not set and
  the field write succeeds, but the fields of its reply lack the name column, the log
  line raises and \<open>verify_and_update\<close> returns false: the write is in the trace of a
  call that returned false.
\<close>

theorem verify_and_update_false_after_write:
  assumes "at_get R t [n, i, u] = Inr (Some (pre @ r # post))"
    and "\<forall>p\<in>set pre. update_matches nfkc n i q p = Inr False"
    and "update_matches nfkc n i q r = Inr True"
    and "\<not> update_flag r u"
    and "at_update R t (rec_id r) [(u, VBool True)] = Inr (Some fs)"
    and "map_of fs n = None"
  shows "verify_and_update nfkc R t n i u q =
           (False, [AtGet t [n, i, u], AtUpdate t (rec_id r) [(u, VBool True)],
                    Print (ErrorCheckUpdate (KeyError n))])"
  using assms(4-6) verify_and_update_reach [OF assms(1-3)]
  by (simp add: verify_and_update_def update_record_def dict_item_def)

theorem verify_and_update_false_after_write_witness:
  "verify_and_update already_normal
     (service [alice, carol] (Inr (Some [(''Updated'', VBool True)])) (Inr ok_response))
     ''tblClients'' ''Name'' ''Id'' ''Updated'' (''Carol'', ''C3'') =
     (False, [AtGet ''tblClients'' [''Name'', ''Id'', ''Updated''],
              AtUpdate ''tblClients'' ''recCarol'' [(''Updated'', VBool True)],
              Print (ErrorCheckUpdate (KeyError ''Name''))])"
proof -
  let ?R = "service [alice, carol] (Inr (Some [(''Updated'', VBool True)])) (Inr ok_response)"
  have h1: "at_get ?R ''tblClients'' [''Name'', ''Id'', ''Updated''] =
              Inr (Some ([alice] @ carol # []))"
    by (simp add: service_def)
  have h2: "\<forall>p\<in>set [alice].
              update_matches already_normal ''Name'' ''Id'' (''Carol'', ''C3'') p = Inr False"
    by (simp add: run_defs)
  have h3: "update_matches already_normal ''Name'' ''Id'' (''Carol'', ''C3'') carol = Inr True"
    by (simp add: run_defs)
  have h4: "\<not> update_flag carol ''Updated''"
    by (simp add: run_defs)
  have h5: "at_update ?R ''tblClients'' (rec_id carol) [(''Updated'', VBool True)] =
              Inr (Some [(''Updated'', VBool True)])"
    by (simp add: service_def)
  have h6: "map_of [(''Updated'', VBool True)] ''Name'' = None"
    by simp
  from verify_and_update_false_after_write [OF h1 h2 h3 h4 h5 h6]
  show ?thesis by (simp add: carol_def client_def)
qed

subsection \<open>A record with the name and no id\<close>

text \<open>
  Claim C9, as the code has it. When a record whose normalised name equals the query
  name has no id field (absent or null), and no record before it matches on both,
  the containment test of that record raises, the handler catches an exception, and
  \<open>get_record_id\<close> returns none, whatever records follow.
\<close>

theorem get_record_id_null_id_aborts:
  assumes "at_get R t [n, i] = Inr (Some (pre @ r # post))"
    and "\<forall>p\<in>set pre. record_matches nfkc i n (qn, qi) p \<noteq> Inr True"
    and "normalize_or_none nfkc (dict_get (rec_fields r) n) = Inr (VStr qn)"
    and "dict_get (rec_fields r) i = VNone"
  shows "record_matches nfkc i n (qn, qi) r = Inl TypeError \<and>
         (\<exists>e. get_record_id_body nfkc R t i n (qn, qi) = Inl e \<and>
              get_record_id nfkc R t i n (qn, qi) =
                (None, [AtGet t [n, i], Print (ErrorGetRecordId e)]))"
proof -
  have m: "record_matches nfkc i n (qn, qi) r = Inl TypeError"
    using assms(3,4) by (simp add: record_matches_def)
  from scan_record_id_raises [OF assms(2) m]
  obtain e where "scan_record_id nfkc i n (qn, qi) (pre @ r # post) = Inl e" by blast
  with assms(1) have "get_record_id_body nfkc R t i n (qn, qi) = Inl e"
    by (simp add: get_record_id_body_def)
  then show ?thesis using m by (simp add: get_record_id_def)
qed

theorem get_record_id_null_id_aborts_witness:
  "record_matches already_normal ''Id'' ''Name'' (''Bob'', ''A1'') bob_draft = Inl TypeError \<and>
   record_matches already_normal ''Id'' ''Name'' (''Bob'', ''A1'') bob_linked = Inr True \<and>
   fst (get_record_id already_normal
          (service [bob_elsewhere, bob_draft, bob_linked] (Inr None) (Inr ok_response))
          ''tblClients'' ''Id'' ''Name'' (''Bob'', ''A1'')) = None"
proof -
  let ?R = "service [bob_elsewhere, bob_draft, bob_linked] (Inr None) (Inr ok_response)"
  have h1: "at_get ?R ''tblClients'' [''Name'', ''Id''] =
              Inr (Some ([bob_elsewhere] @ bob_draft # [bob_linked]))"
    by (simp add: service_def)
  have h2: "\<forall>p\<in>set [bob_elsewhere].
              record_matches already_normal ''Id'' ''Name'' (''Bob'', ''A1'') p \<noteq> Inr True"
    by (simp add: run_defs)
  have h3: "normalize_or_none already_normal (dict_get (rec_fields bob_draft) ''Name'') =
              Inr (VStr ''Bob'')"
    by (simp add: run_defs)
  have h4: "dict_get (rec_fields bob_draft) ''Id'' = VNone"
    by (simp add: run_defs)
  have later: "record_matches already_normal ''Id'' ''Name'' (''Bob'', ''A1'') bob_linked = Inr True"
    by (simp add: run_defs)
  from get_record_id_null_id_aborts [OF h1 h2 h3 h4] later
  show ?thesis by auto
qed

text \<open>
  Against claim C9 as stated: a record with the name and no id is in the table, after a
  record that matches on both, and the result is the identifier of that record, not
  none.
\<close>

theorem get_record_id_earlier_match_counterexample:
  "normalize_or_none already_normal (dict_get (rec_fields bob_draft) ''Name'') =
     Inr (VStr ''Bob'') \<and>
   dict_get (rec_fields bob_draft) ''Id'' = VNone \<and>
   fst (get_record_id already_normal
          (service [bob_linked, bob_draft] (Inr None) (Inr ok_response))
          ''tblClients'' ''Id'' ''Name'' (''Bob'', ''A1'')) = Some ''recBob''"
  by (simp add: run_defs)

subsection \<open>The API key\<close>

text \<open>
  Claim C10. A request without the key is answered with status 400, a request with a
  key other than the configured secret with status 403, and a request with the secret
  on \<open>/protected\<close> with status 200.
\<close>

theorem api_key_statuses:
  "get_api_key None = Inl (HTTPException 400 ''X-API-Key header invalid'') \<and>
   fst (serve_protected None) = 400 \<and>
   (k \<noteq> ''valid_api_key'' \<longrightarrow>
      get_api_key (Some k) = Inl (HTTPException 403 ''Could not validate credentials'') \<and>
      fst (serve_protected (Some k)) = 403) \<and>
   get_api_key (Some ''valid_api_key'') = Inr ''valid_api_key'' \<and>
   serve_protected (Some ''valid_api_key'') =
     (200, [(''message'', ''Access granted for user valid_api_key'')])"
  by (simp add: get_api_key_def serve_protected_def protected_route_def)

theorem api_key_statuses_witness:
  "''guess'' \<noteq> ''valid_api_key'' \<and>
   get_api_key (Some ''guess'') = Inl (HTTPException 403 ''Could not validate credentials'') \<and>
   fst (serve_protected (Some ''guess'')) = 403 \<and>
   fst (serve_protected None) = 400 \<and>
   fst (serve_protected (Some ''valid_api_key'')) = 200"
proof -
  have h: "''guess'' \<noteq> ''valid_api_key''" by simp
  from api_key_statuses [of "''guess''"] h show ?thesis by simp
qed

end
